theory Spec2Isabelle
  imports Complex_Main "HOL-Library.AList"
begin

section \<open>Python values and dictionaries\<close>

text \<open>
  The program passes JSON-like Python values around: node data, connection data and whole
  project documents are dictionaries with string keys. A dictionary keeps insertion order,
  so it is an association list; \<open>d[k] = v\<close> is \<^const>\<open>AList.update\<close> (replace in place,
  else append), \<open>del d[k]\<close> is \<^const>\<open>AList.delete\<close>.
\<close>

datatype val =
    VNone
  | VBool bool
  | VInt int
  | VFloat real
  | VStr string
  | VList "val list"
  | VDict "(string \<times> val) list"

type_synonym dict = "(string \<times> val) list"

datatype py_error =
    KeyError
  | TypeError
  | AttributeError
  | FileNotFoundError
  | OSError
  | ValueError

definition dict_get :: "('k \<times> 'v) list \<Rightarrow> 'k \<Rightarrow> 'v option" where
  "dict_get d k = map_of d k"

definition dict_get_default :: "('k \<times> 'v) list \<Rightarrow> 'k \<Rightarrow> 'v \<Rightarrow> 'v" where
  "dict_get_default d k dflt = (case map_of d k of None \<Rightarrow> dflt | Some v \<Rightarrow> v)"

definition dict_contains :: "('k \<times> 'v) list \<Rightarrow> 'k \<Rightarrow> bool" where
  "dict_contains d k = (map_of d k \<noteq> None)"

definition dict_keys :: "('k \<times> 'v) list \<Rightarrow> 'k list" where
  "dict_keys d = map fst d"

definition dict_values :: "('k \<times> 'v) list \<Rightarrow> 'v list" where
  "dict_values d = map snd d"

definition dict_setdefault :: "'k \<Rightarrow> 'v \<Rightarrow> ('k \<times> 'v) list \<Rightarrow> ('k \<times> 'v) list" where
  "dict_setdefault k v d = (if dict_contains d k then d else AList.update k v d)"


text \<open>Truthiness of a value, as \<open>if v:\<close> tests it.\<close>

fun truthy :: "val \<Rightarrow> bool" where
  "truthy VNone = False"
| "truthy (VBool b) = b"
| "truthy (VInt i) = (i \<noteq> 0)"
| "truthy (VFloat r) = (r \<noteq> 0)"
| "truthy (VStr s) = (s \<noteq> [])"
| "truthy (VList xs) = (xs \<noteq> [])"
| "truthy (VDict d) = (d \<noteq> [])"

text \<open>
  The keys of \<open>self.nodes\<close> are the integers handed out by the counter. A value looked up
  in that dictionary hits an integer key when it is equal to it in Python's sense: an
  \<open>int\<close>, a \<open>bool\<close> (\<open>True == 1\<close>) or an integral \<open>float\<close> (\<open>1.0 == 1\<close>). \<open>None\<close> and strings
  are hashable and equal to no integer; lists and dictionaries are unhashable.
\<close>

fun as_int_key :: "val \<Rightarrow> py_error + int option" where
  "as_int_key (VInt i) = Inr (Some i)"
| "as_int_key (VBool b) = Inr (Some (if b then 1 else 0))"
| "as_int_key (VFloat r) = Inr (if of_int \<lfloor>r\<rfloor> = r then Some \<lfloor>r\<rfloor> else None)"
| "as_int_key VNone = Inr None"
| "as_int_key (VStr s) = Inr None"
| "as_int_key (VList xs) = Inl TypeError"
| "as_int_key (VDict d) = Inl TypeError"

text \<open>Numbers accepted where Qt expects a coordinate (\<open>setPos\<close>).\<close>

fun as_number :: "val \<Rightarrow> real option" where
  "as_number (VInt i) = Some (of_int i)"
| "as_number (VFloat r) = Some r"
| "as_number (VBool b) = Some (if b then 1 else 0)"
| "as_number v = None"

subsection \<open>Formatting integers, splitting strings\<close>

definition digit_char :: "nat \<Rightarrow> char" where
  "digit_char n = ''0123456789'' ! (n mod 10)"

fun str_of_nat :: "nat \<Rightarrow> string" where
  "str_of_nat n =
     (if n < 10 then [digit_char n] else str_of_nat (n div 10) @ [digit_char n])"

declare str_of_nat.simps [simp del]

definition str_of_int :: "int \<Rightarrow> string" where
  "str_of_int i = (if i < 0 then CHR ''-'' # str_of_nat (nat (- i)) else str_of_nat (nat i))"

text \<open>\<open>s.split('.')[-1]\<close>: the part of \<open>s\<close> after its last dot (all of \<open>s\<close> without a dot).\<close>

definition last_dot_part :: "string \<Rightarrow> string" where
  "last_dot_part s = rev (takeWhile (\<lambda>c. c \<noteq> CHR ''.'') (rev s))"

subsection \<open>The random source\<close>

text \<open>
  \<open>random.randint(lo, hi)\<close> draws from the generator's state. The state is the stream of
  raw draws still to come; a draw is mapped into \<open>[lo, hi]\<close>.
\<close>

type_synonym rng = "nat \<Rightarrow> nat"

definition randint :: "int \<Rightarrow> int \<Rightarrow> rng \<Rightarrow> int \<times> rng" where
  "randint lo hi g = (lo + int (g 0) mod (hi - lo + 1), \<lambda>n. g (Suc n))"

section \<open>The canvas (\<open>anmp/ui/network_canvas.py\<close>)\<close>

text \<open>
  A \<open>NetworkNode\<close> item holds its \<open>node_data\<close> dictionary and the position Qt keeps for it;
  a \<open>NetworkConnection\<close> holds its two end nodes (here: their keys in \<open>self.nodes\<close>) and its
  \<open>connection_data\<close>. The graphics scene only draws the items and is not modelled.
\<close>

record node_item =
  node_data :: dict
  item_pos :: "real \<times> real"

record connection_item =
  source_node :: int
  target_node :: int
  connection_data :: dict

record canvas =
  level :: string
  nodes :: "(int \<times> node_item) list"
  connections :: "((int \<times> int) \<times> connection_item) list"
  next_node_id :: int

definition new_canvas :: "string \<Rightarrow> canvas" where
  "new_canvas lv = \<lparr>level = lv, nodes = [], connections = [], next_node_id = 1\<rparr>"

text \<open>
  \<open>NetworkNode.__init__\<close> calls \<open>update_appearance\<close> (the device type is looked up in the
  icon table, so it must be hashable) and \<open>update_text\<close>
  (\<open>node_data.get("l3", {}).get("ip", "No IP")\<close>, so \<open>l3\<close> must be a dictionary).
\<close>

definition update_appearance :: "dict \<Rightarrow> py_error + unit" where
  "update_appearance nd =
     (case dict_get_default nd ''type'' (VStr ''host'') of
        VList xs \<Rightarrow> Inl TypeError
      | VDict d \<Rightarrow> Inl TypeError
      | _ \<Rightarrow> Inr ())"

definition update_text :: "dict \<Rightarrow> py_error + unit" where
  "update_text nd =
     (case dict_get_default nd ''l3'' (VDict []) of
        VDict d \<Rightarrow> Inr ()
      | _ \<Rightarrow> Inl AttributeError)"

definition set_pos :: "val \<Rightarrow> val \<Rightarrow> py_error + (real \<times> real)" where
  "set_pos x y =
     (case (as_number x, as_number y) of
        (Some a, Some b) \<Rightarrow> Inr (a, b)
      | _ \<Rightarrow> Inl TypeError)"

definition add_node_defaults :: "int \<Rightarrow> int \<Rightarrow> int \<Rightarrow> dict \<Rightarrow> dict" where
  "add_node_defaults new_id rx ry nd =
     (dict_setdefault ''l3'' (VDict [(''ip'', VStr (''192.168.1.'' @ str_of_int new_id)),
                                     (''mask'', VStr ''255.255.255.0''),
                                     (''gateway'', VStr '''')])
     (dict_setdefault ''l2'' (VDict [(''mac'', VStr ''''), (''vlan'', VInt 1)])
     (dict_setdefault ''l1'' (VDict [(''ports'', VList []), (''location'', VStr '''')])
     (dict_setdefault ''status'' (VStr ''online'')
     (dict_setdefault ''y'' (VInt ry)
     (dict_setdefault ''x'' (VInt rx)
     (dict_setdefault ''type'' (VStr ''host'')
     (dict_setdefault ''name'' (VStr (''Device-'' @ str_of_int new_id)) nd))))))))"

definition add_node :: "dict option \<Rightarrow> canvas \<Rightarrow> rng \<Rightarrow> py_error + (int \<times> canvas \<times> rng)" where
  "add_node arg c g =
     (let new_id = next_node_id c;
          nd0 = (case arg of
                   None \<Rightarrow> [(''id'', VInt (next_node_id c))]
                 | Some d \<Rightarrow> AList.update ''id'' (VInt (next_node_id c)) d);
          (rx, g1) = randint 50 400 g;
          (ry, g2) = randint 50 300 g1;
          nd = add_node_defaults new_id rx ry nd0
      in case update_appearance nd of Inl e \<Rightarrow> Inl e | Inr _ \<Rightarrow>
         (case update_text nd of Inl e \<Rightarrow> Inl e | Inr _ \<Rightarrow>
         (case set_pos (dict_get_default nd ''x'' VNone) (dict_get_default nd ''y'' VNone) of
            Inl e \<Rightarrow> Inl e
          | Inr p \<Rightarrow>
              Inr (new_id,
                   c\<lparr>nodes := AList.update new_id \<lparr>node_data = nd, item_pos = p\<rparr> (nodes c),
                     next_node_id := next_node_id c + 1\<rparr>,
                   g2))))"

definition clear :: "canvas \<Rightarrow> canvas" where
  "clear c = c\<lparr>nodes := [], connections := [], next_node_id := 1\<rparr>"

definition get_node_count :: "canvas \<Rightarrow> nat" where
  "get_node_count c = length (nodes c)"

definition get_connection_count :: "canvas \<Rightarrow> nat" where
  "get_connection_count c = length (connections c)"

text \<open>
  \<open>add_discovered_nodes\<close>: every record of the scanner becomes a fresh node dictionary, which
  is handed to \<open>add_node\<close>. The default of \<open>name\<close> is computed before \<open>get\<close> is called, so a
  record without \<open>ip\<close> raises \<open>KeyError\<close> and an \<open>ip\<close> that is no string has no \<open>split\<close>.
\<close>

definition discovered_node_data :: "dict \<Rightarrow> rng \<Rightarrow> py_error + (dict \<times> rng)" where
  "discovered_node_data node_info g =
     (case dict_get node_info ''ip'' of
        None \<Rightarrow> Inl KeyError
      | Some (VStr ip) \<Rightarrow>
          (let (x, g1) = randint 50 600 g;
               (y, g2) = randint 50 400 g1
           in Inr ([(''name'', dict_get_default node_info ''name'' (VStr (''Host-'' @ last_dot_part ip))),
                    (''type'', dict_get_default node_info ''type'' (VStr ''host'')),
                    (''ip'', VStr ip),
                    (''mask'', dict_get_default node_info ''mask'' (VStr ''255.255.255.0'')),
                    (''x'', VInt x),
                    (''y'', VInt y),
                    (''status'', dict_get_default node_info ''status'' (VStr ''online'')),
                    (''ports'', dict_get_default node_info ''ports'' (VList []))],
                   g2))
      | Some _ \<Rightarrow> Inl AttributeError)"

fun add_discovered_nodes :: "dict list \<Rightarrow> canvas \<Rightarrow> rng \<Rightarrow> py_error + (canvas \<times> rng)" where
  "add_discovered_nodes [] c g = Inr (c, g)"
| "add_discovered_nodes (node_info # rest) c g =
     (case discovered_node_data node_info g of
        Inl e \<Rightarrow> Inl e
      | Inr (nd, g1) \<Rightarrow>
          (case add_node (Some nd) c g1 of
             Inl e \<Rightarrow> Inl e
           | Inr (i, c1, g2) \<Rightarrow> add_discovered_nodes rest c1 g2))"


text \<open>
  \<open>delete_connection\<close> looks for the first key whose stored item is the given one and
  deletes that entry.
\<close>

definition delete_connection :: "connection_item \<Rightarrow> canvas \<Rightarrow> canvas" where
  "delete_connection connection c =
     (case find (\<lambda>(key, conn). conn = connection) (connections c) of
        None \<Rightarrow> c
      | Some (conn_key, conn) \<Rightarrow> c\<lparr>connections := AList.delete conn_key (connections c)\<rparr>)"

definition connections_to_remove :: "int \<Rightarrow> canvas \<Rightarrow> (int \<times> int) list" where
  "connections_to_remove node_id c =
     map fst (filter (\<lambda>((source_id, target_id), connection).
                        source_id = node_id \<or> target_id = node_id) (connections c))"

fun delete_connections :: "(int \<times> int) list \<Rightarrow> canvas \<Rightarrow> py_error + canvas" where
  "delete_connections [] c = Inr c"
| "delete_connections (conn_id # rest) c =
     (case dict_get (connections c) conn_id of
        None \<Rightarrow> Inl KeyError
      | Some connection \<Rightarrow> delete_connections rest (delete_connection connection c))"

definition delete_node :: "int \<Rightarrow> canvas \<Rightarrow> py_error + canvas" where
  "delete_node node_id c =
     (if dict_contains (nodes c) node_id then
        (case delete_connections (connections_to_remove node_id c) c of
           Inl e \<Rightarrow> Inl e
         | Inr c1 \<Rightarrow> Inr (c1\<lparr>nodes := AList.delete node_id (nodes c1)\<rparr>))
      else Inr c)"

text \<open>
  \<open>add_connection\<close> has no \<open>return\<close> with a value: every path gives \<open>None\<close> back.
\<close>

definition add_connection :: "int \<Rightarrow> int \<Rightarrow> dict option \<Rightarrow> canvas \<Rightarrow> val \<times> canvas" where
  "add_connection source_id target_id arg c =
     (if \<not> dict_contains (nodes c) source_id \<or> \<not> dict_contains (nodes c) target_id then
        (VNone, c)
      else if source_id = target_id then
        (VNone, c)
      else
        (let conn_key = (min source_id target_id, max source_id target_id)
         in if dict_contains (connections c) conn_key then (VNone, c)
            else
              (let cd = (case arg of
                           None \<Rightarrow> [(''source'', VInt source_id),
                                    (''target'', VInt target_id),
                                    (''type'', VStr ''ethernet'')]
                         | Some d \<Rightarrow> d);
                   connection = \<lparr>source_node = source_id, target_node = target_id,
                                 connection_data = cd\<rparr>
               in (VNone, c\<lparr>connections := AList.update conn_key connection (connections c)\<rparr>))))"

text \<open>
  \<open>auto_layout\<close>: \<open>nx.spring_layout\<close> is a library call; its result for the graph built from
  the node keys and the connection keys is a parameter here. Every position it returns for
  a key of \<open>self.nodes\<close> is scaled and stored in the item and in its \<open>node_data\<close>.
\<close>

type_synonym layout = "int list \<Rightarrow> (int \<times> int) list \<Rightarrow> (int \<times> (real \<times> real)) list"

definition place_item :: "real \<times> real \<Rightarrow> node_item \<Rightarrow> node_item" where
  "place_item position node_item =
     (let x = fst position * 300 + 400;
          y = snd position * 300 + 300
      in \<lparr>node_data = AList.update ''y'' (VFloat y)
                         (AList.update ''x'' (VFloat x) (node_data node_item)),
          item_pos = (x, y)\<rparr>)"

definition apply_position :: "int \<times> (real \<times> real) \<Rightarrow> canvas \<Rightarrow> canvas" where
  "apply_position entry c =
     (case entry of (node_id, position) \<Rightarrow>
        (case dict_get (nodes c) node_id of
           None \<Rightarrow> c
         | Some node_item \<Rightarrow>
             c\<lparr>nodes := AList.update node_id (place_item position node_item) (nodes c)\<rparr>))"

definition auto_layout :: "layout \<Rightarrow> canvas \<Rightarrow> canvas" where
  "auto_layout spring_layout c =
     (if nodes c = [] then c
      else fold apply_position
             (spring_layout (dict_keys (nodes c)) (dict_keys (connections c))) c)"

text \<open>
  \<open>get_nodes_data\<close> first copies the position Qt holds into every \<open>node_data\<close>.
\<close>

definition sync_position :: "node_item \<Rightarrow> node_item" where
  "sync_position node_item =
     node_item\<lparr>node_data := AList.update ''y'' (VFloat (snd (item_pos node_item)))
                               (AList.update ''x'' (VFloat (fst (item_pos node_item)))
                                  (node_data node_item))\<rparr>"

definition get_nodes_data :: "canvas \<Rightarrow> dict list \<times> canvas" where
  "get_nodes_data c =
     (let ns = map (\<lambda>(node_id, node_item). (node_id, sync_position node_item)) (nodes c)
      in (map (\<lambda>(node_id, node_item). node_data node_item) ns, c\<lparr>nodes := ns\<rparr>))"

definition get_connections_data :: "canvas \<Rightarrow> dict" where
  "get_connections_data c =
     [(''connections'', VList (map (\<lambda>conn. VDict (connection_data conn))
                                    (dict_values (connections c))))]"

text \<open>
  \<open>load_data\<close>: the node list and the connection list come out of a loaded document, so they
  are plain values. Iterating a value that is no list follows Python: a string yields its
  characters, a dictionary its keys, anything else is not iterable.
\<close>

fun iter_val :: "val \<Rightarrow> py_error + val list" where
  "iter_val (VList xs) = Inr xs"
| "iter_val (VStr s) = Inr (map (\<lambda>ch. VStr [ch]) s)"
| "iter_val (VDict d) = Inr (map (\<lambda>(k, v). VStr k) d)"
| "iter_val v = Inl TypeError"

text \<open>
  Every element of the node list is handed to \<open>add_node\<close> as it is. \<open>add_node\<close> takes
  \<open>None\<close> (a JSON \<open>null\<close>) for "no data" and makes a node of defaults; a dictionary is used
  as the node's data; any other value fails at \<open>node_data["id"] = ...\<close>, which needs item
  assignment with a string key.
\<close>

fun as_node_arg :: "val \<Rightarrow> py_error + dict option" where
  "as_node_arg VNone = Inr None"
| "as_node_arg (VDict nd) = Inr (Some nd)"
| "as_node_arg v = Inl TypeError"

fun load_nodes :: "val list \<Rightarrow> canvas \<Rightarrow> rng \<Rightarrow> py_error + (canvas \<times> rng)" where
  "load_nodes [] c g = Inr (c, g)"
| "load_nodes (v # rest) c g =
     (case as_node_arg v of
        Inl e \<Rightarrow> Inl e
      | Inr arg \<Rightarrow>
          (case add_node arg c g of
             Inl e \<Rightarrow> Inl e
           | Inr (i, c1, g1) \<Rightarrow> load_nodes rest c1 g1))"

text \<open>
  A loaded connection is added when both of its ids are truthy; \<open>add_connection\<close> then looks
  the ids up in \<open>self.nodes\<close> (the target only if the source is a key).
\<close>

definition load_connection :: "val \<Rightarrow> canvas \<Rightarrow> py_error + canvas" where
  "load_connection v c =
     (case v of
        VDict cd \<Rightarrow>
          (let source_id = dict_get_default cd ''source'' VNone;
               target_id = dict_get_default cd ''target'' VNone
           in if truthy source_id \<and> truthy target_id then
                (case as_int_key source_id of
                   Inl e \<Rightarrow> Inl e
                 | Inr None \<Rightarrow> Inr c
                 | Inr (Some s) \<Rightarrow>
                     (if \<not> dict_contains (nodes c) s then Inr c
                      else
                        (case as_int_key target_id of
                           Inl e \<Rightarrow> Inl e
                         | Inr None \<Rightarrow> Inr c
                         | Inr (Some t) \<Rightarrow> Inr (snd (add_connection s t (Some cd) c)))))
              else Inr c)
      | _ \<Rightarrow> Inl AttributeError)"

fun load_connections :: "val list \<Rightarrow> canvas \<Rightarrow> py_error + canvas" where
  "load_connections [] c = Inr c"
| "load_connections (v # rest) c =
     (case load_connection v c of
        Inl e \<Rightarrow> Inl e
      | Inr c1 \<Rightarrow> load_connections rest c1)"

definition load_data :: "dict \<Rightarrow> canvas \<Rightarrow> rng \<Rightarrow> py_error + (canvas \<times> rng)" where
  "load_data data c g =
     (case iter_val (dict_get_default data ''nodes'' (VList [])) of
        Inl e \<Rightarrow> Inl e
      | Inr ns \<Rightarrow>
          (case load_nodes ns (clear c) g of
             Inl e \<Rightarrow> Inl e
           | Inr (c1, g1) \<Rightarrow>
               (case iter_val (dict_get_default data ''connections'' (VList [])) of
                  Inl e \<Rightarrow> Inl e
                | Inr cs \<Rightarrow>
                    (case load_connections cs c1 of
                       Inl e \<Rightarrow> Inl e
                     | Inr c2 \<Rightarrow> Inr (c2, g1)))))"

section \<open>The main window (\<open>anmp/app/main_window.py\<close>)\<close>

text \<open>The window owns one canvas per layer; discovered hosts go to all three, in order.\<close>

record app =
  canvas_l1 :: canvas
  canvas_l2 :: canvas
  canvas_l3 :: canvas

definition new_app :: app where
  "new_app = \<lparr>canvas_l1 = new_canvas ''l1'', canvas_l2 = new_canvas ''l2'',
              canvas_l3 = new_canvas ''l3''\<rparr>"

definition on_nodes_discovered :: "dict list \<Rightarrow> app \<Rightarrow> rng \<Rightarrow> py_error + (app \<times> rng)" where
  "on_nodes_discovered discovered_nodes a g =
     (case add_discovered_nodes discovered_nodes (canvas_l1 a) g of
        Inl e \<Rightarrow> Inl e
      | Inr (c1, g1) \<Rightarrow>
          (case add_discovered_nodes discovered_nodes (canvas_l2 a) g1 of
             Inl e \<Rightarrow> Inl e
           | Inr (c2, g2) \<Rightarrow>
               (case add_discovered_nodes discovered_nodes (canvas_l3 a) g2 of
                  Inl e \<Rightarrow> Inl e
                | Inr (c3, g3) \<Rightarrow>
                    Inr (\<lparr>canvas_l1 = c1, canvas_l2 = c2, canvas_l3 = c3\<rparr>, g3))))"

section \<open>The data manager (\<open>anmp/core/data_manager.py\<close>)\<close>

text \<open>
  A file holds text. \<open>json.dump\<close> and \<open>json.load\<close> are library calls: the text written for
  a value is \<open>JsonText\<close> of it, which \<open>json.load\<close> reads back as that value; any other text
  (also what an interrupted \<open>json.dump\<close> leaves behind) is \<open>BadText\<close> and does not parse.
\<close>

datatype file_content = JsonText val | BadText string

type_synonym filesystem = "string \<Rightarrow> file_content option"

text \<open>
  What the operating system may do to a save: \<open>os.remove\<close> and \<open>os.rename\<close> can raise, and
  writing can fail when the file is opened (nothing is created) or during \<open>json.dump\<close>
  (the file is left with the text written so far).
\<close>

datatype write_outcome = WriteOk | OpenFails | DumpFails string

record faults =
  remove_fails :: bool
  rename_fails :: bool
  write_result :: write_outcome

definition no_faults :: faults where
  "no_faults = \<lparr>remove_fails = False, rename_fails = False, write_result = WriteOk\<rparr>"

record data_manager =
  current_project :: "dict option"

text \<open>\<open>create_new_project\<close> reads the clock twice, for \<open>created\<close> and for \<open>modified\<close>.\<close>

definition create_new_project :: "string \<Rightarrow> string \<Rightarrow> string \<Rightarrow> dict" where
  "create_new_project now1 now2 name =
     [(''metadata'', VDict [(''name'', VStr name),
                            (''created'', VStr now1),
                            (''modified'', VStr now2),
                            (''version'', VStr ''1.2'')]),
      (''nodes'', VList []),
      (''topologies'', VDict [(''l1'', VDict [(''connections'', VList [])]),
                              (''l2'', VDict [(''connections'', VList [])]),
                              (''l3'', VDict [(''connections'', VList [])])]),
      (''settings'', VDict [(''auto_layout'', VBool True)])]"

definition backup_path :: "string \<Rightarrow> string" where
  "backup_path file_path = file_path @ ''.backup''"

text \<open>
  The steps of \<open>save_project\<close> return the exception they raise, if any, together with the
  state they leave: what has been done up to an exception stays done.

  \<open>touch_modified\<close>: the first statements. A \<open>metadata\<close> entry that is no dictionary cannot
  take the \<open>modified\<close> item.
\<close>

definition touch_modified :: "string \<Rightarrow> dict \<Rightarrow> py_error option \<times> dict" where
  "touch_modified now data =
     (let data1 = (if dict_contains data ''metadata'' then data
                   else AList.update ''metadata'' (VDict []) data)
      in case dict_get data1 ''metadata'' of
           Some (VDict md) \<Rightarrow>
             (None, AList.update ''metadata''
                      (VDict (AList.update ''modified'' (VStr now) md)) data1)
         | _ \<Rightarrow> (Some TypeError, data1))"

text \<open>
  \<open>rotate_backup\<close>: an existing file is renamed to the backup path, after an existing backup
  has been removed.
\<close>

definition rotate_backup :: "faults \<Rightarrow> string \<Rightarrow> filesystem \<Rightarrow> py_error option \<times> filesystem" where
  "rotate_backup fl file_path fs =
     (if fs file_path \<noteq> None then
        (if fs (backup_path file_path) \<noteq> None \<and> remove_fails fl then (Some OSError, fs)
         else
           (let fs1 = (if fs (backup_path file_path) \<noteq> None
                       then fs(backup_path file_path := None) else fs)
            in if rename_fails fl then (Some OSError, fs1)
               else (None, fs1(backup_path file_path := fs1 file_path, file_path := None))))
      else (None, fs))"

definition write_json ::
  "faults \<Rightarrow> dict \<Rightarrow> string \<Rightarrow> filesystem \<Rightarrow> py_error option \<times> filesystem" where
  "write_json fl data file_path fs =
     (case write_result fl of
        WriteOk \<Rightarrow> (None, fs(file_path \<mapsto> JsonText (VDict data)))
      | OpenFails \<Rightarrow> (Some OSError, fs)
      | DumpFails partial \<Rightarrow> (Some OSError, fs(file_path \<mapsto> BadText partial)))"

text \<open>
  \<open>save_project\<close> catches every exception and returns \<open>False\<close>. The result is the returned
  flag, the (mutated) dictionary, the file system and the manager.
\<close>

definition save_project ::
  "faults \<Rightarrow> string \<Rightarrow> dict \<Rightarrow> string \<Rightarrow> filesystem \<Rightarrow> data_manager
     \<Rightarrow> bool \<times> dict \<times> filesystem \<times> data_manager" where
  "save_project fl now data file_path fs dm =
     (case touch_modified now data of
        (Some e, data1) \<Rightarrow> (False, data1, fs, dm)
      | (None, data1) \<Rightarrow>
          (case rotate_backup fl file_path fs of
             (Some e, fs1) \<Rightarrow> (False, data1, fs1, dm)
           | (None, fs1) \<Rightarrow>
               (case write_json fl data1 file_path fs1 of
                  (Some e, fs2) \<Rightarrow> (False, data1, fs2, dm)
                | (None, fs2) \<Rightarrow> (True, data1, fs2, dm\<lparr>current_project := Some data1\<rparr>))))"

definition validate_project_data :: "dict \<Rightarrow> dict" where
  "validate_project_data data =
     dict_setdefault ''topologies''
       (VDict [(''l1'', VDict [(''connections'', VList [])]),
               (''l2'', VDict [(''connections'', VList [])]),
               (''l3'', VDict [(''connections'', VList [])])]) data"

text \<open>
  \<open>load_project\<close>: a missing file raises \<open>FileNotFoundError\<close>. Text that does not parse makes
  \<open>json.load\<close> raise \<open>JSONDecodeError\<close>; the handler builds a new \<open>JSONDecodeError\<close> from one
  argument, which itself raises \<open>TypeError\<close>. Any other exception becomes \<open>ValueError\<close>.
\<close>

definition load_project ::
  "string \<Rightarrow> string \<Rightarrow> filesystem \<Rightarrow> data_manager \<Rightarrow> py_error + (dict \<times> data_manager)" where
  "load_project now file_path fs dm =
     (case fs file_path of
        None \<Rightarrow> Inl FileNotFoundError
      | Some (BadText t) \<Rightarrow> Inl TypeError
      | Some (JsonText v) \<Rightarrow>
          (case v of
             VDict data \<Rightarrow>
               (let data1 = validate_project_data data;
                    data2 = (if dict_contains data1 ''metadata'' then data1
                             else AList.update ''metadata'' (VDict []) data1)
                in case dict_get data2 ''metadata'' of
                     Some (VDict md) \<Rightarrow>
                       (let data3 = AList.update ''metadata''
                                      (VDict (AList.update ''loaded'' (VStr now) md)) data2
                        in Inr (data3, dm\<lparr>current_project := Some data3\<rparr>))
                   | _ \<Rightarrow> Inl ValueError)
           | _ \<Rightarrow> Inl ValueError))"

text \<open>A run of \<open>add_node\<close> calls on one canvas, collecting the returned ids.\<close>

fun add_nodes :: "dict option list \<Rightarrow> canvas \<Rightarrow> rng \<Rightarrow> py_error + (int list \<times> canvas \<times> rng)" where
  "add_nodes [] c g = Inr ([], c, g)"
| "add_nodes (a # as) c g =
     (case add_node a c g of
        Inl e \<Rightarrow> Inl e
      | Inr (i, c1, g1) \<Rightarrow>
          (case add_nodes as c1 g1 of
             Inl e \<Rightarrow> Inl e
           | Inr (is, c2, g2) \<Rightarrow> Inr (i # is, c2, g2)))"

section \<open>Predicates used by the properties\<close>

text \<open>The number of entries of \<open>self.connections\<close> stored for the unordered pair \<open>(a, b)\<close>.\<close>

definition pair_count :: "int \<Rightarrow> int \<Rightarrow> canvas \<Rightarrow> nat" where
  "pair_count a b c =
     length (filter (\<lambda>(key, conn). key = (min a b, max a b)) (connections c))"

text \<open>
  What \<open>add_connection\<close>, the only place that stores into \<open>self.connections\<close>, keeps true:
  keys are unique (it is a dictionary) and an item is stored under the ordered pair of its
  two ends. Two distinct items of the dictionary therefore differ in their ends.
\<close>

definition conn_key_of :: "connection_item \<Rightarrow> int \<times> int" where
  "conn_key_of conn =
     (min (source_node conn) (target_node conn), max (source_node conn) (target_node conn))"

definition connections_ok :: "canvas \<Rightarrow> bool" where
  "connections_ok c =
     (distinct (dict_keys (connections c)) \<and>
      list_all (\<lambda>(key, conn). key = conn_key_of conn) (connections c))"

definition references :: "int \<Rightarrow> (int \<times> int) \<Rightarrow> bool" where
  "references node_id key = (fst key = node_id \<or> snd key = node_id)"

text \<open>
  What \<open>add_node\<close>, the only place that stores into \<open>self.nodes\<close>, keeps true: every key is
  below the counter.
\<close>

definition ids_fresh :: "canvas \<Rightarrow> bool" where
  "ids_fresh c = list_all (\<lambda>k. k < next_node_id c) (dict_keys (nodes c))"

text \<open>The \<open>l3.ip\<close> entry of a node dictionary, as \<open>update_text\<close> reads it.\<close>

definition l3_ip :: "dict \<Rightarrow> val option" where
  "l3_ip nd = (case dict_get nd ''l3'' of Some (VDict l3) \<Rightarrow> dict_get l3 ''ip'' | _ \<Rightarrow> None)"

text \<open>A document with the \<open>modified\<close> entry of its metadata left out.\<close>

definition strip_modified :: "dict \<Rightarrow> dict" where
  "strip_modified data =
     (case dict_get data ''metadata'' of
        Some (VDict md) \<Rightarrow> AList.update ''metadata'' (VDict (AList.delete ''modified'' md)) data
      | _ \<Rightarrow> data)"

text \<open>Every connection of the canvas joins two keys of \<open>self.nodes\<close>.\<close>

definition ends_are_nodes :: "canvas \<Rightarrow> bool" where
  "ends_are_nodes c =
     list_all (\<lambda>(key, conn). dict_contains (nodes c) (fst key) \<and> dict_contains (nodes c) (snd key))
       (connections c)"

text \<open>
  The dictionary \<open>add_node\<close> starts from, before it fills in the defaults: a new one with
  the id when it is called without data, else the given one with \<open>id\<close> set.
\<close>

definition first_node_data :: "int \<Rightarrow> dict option \<Rightarrow> dict" where
  "first_node_data new_id arg =
     (case arg of
        None \<Rightarrow> [(''id'', VInt new_id)]
      | Some d \<Rightarrow> AList.update ''id'' (VInt new_id) d)"

section \<open>Concrete inputs\<close>

text \<open>A random source whose raw draws are all zero, and one discovered host.\<close>

definition const_rng :: rng where
  "const_rng = (\<lambda>n. 0)"

definition host_10_0_0_5 :: dict where
  "host_10_0_0_5 = [(''ip'', VStr ''10.0.0.5'')]"

text \<open>
  A canvas with three nodes and the connections 1--2 and 3--2, built by the canvas's own
  operations.
\<close>

definition chain_canvas :: canvas where
  "chain_canvas =
     (case add_nodes [None, None, None] (new_canvas ''l1'') const_rng of
        Inl e \<Rightarrow> new_canvas ''l1''
      | Inr (is, c, g) \<Rightarrow>
          snd (add_connection 3 2 None (snd (add_connection 1 2 None c))))"

text \<open>
  A new project, an empty file system, one that holds this project as \<open>net.json\<close>, and a
  disk on which opening a file for writing fails.
\<close>

definition sample_document :: dict where
  "sample_document = create_new_project ''2024-01-01T00:00:00'' ''2024-01-01T00:00:00'' ''net''"

definition empty_fs :: filesystem where
  "empty_fs = (\<lambda>file_path. None)"

definition saved_fs :: filesystem where
  "saved_fs = empty_fs(''net.json'' \<mapsto> JsonText (VDict sample_document))"

definition open_fails :: faults where
  "open_fails = \<lparr>remove_fails = False, rename_fails = False, write_result = OpenFails\<rparr>"

definition new_data_manager :: data_manager where
  "new_data_manager = \<lparr>current_project = None\<rparr>"




text \<open>A layout result that puts node \<open>i\<close> at \<open>(i / 4, - 1 / 2)\<close>.\<close>

definition row_layout :: layout where
  "row_layout node_ids edges = map (\<lambda>i. (i, (real_of_int i / 4, - (1 / 2)))) node_ids"

text \<open>
  A document whose node list holds a node with the id 10, a \<open>null\<close> and a node with the id
  20, with one connection between the stored ids and one between the numbers 1 and 3.
\<close>

definition renumbered_document :: dict where
  "renumbered_document =
     [(''nodes'', VList [VDict [(''id'', VInt 10), (''name'', VStr ''A'')],
                         VNone,
                         VDict [(''id'', VInt 20), (''name'', VStr ''B'')]]),
      (''connections'', VList [VDict [(''source'', VInt 10), (''target'', VInt 20)],
                               VDict [(''source'', VInt 1), (''target'', VInt 3)]])]"

section \<open>Node identity\<close>

lemma add_node_id:
  assumes "add_node a c g = Inr (i, c1, g1)"
  shows "i = next_node_id c" and "next_node_id c1 = next_node_id c + 1"
  using assms
  by (auto simp: add_node_def Let_def split: prod.splits sum.splits)


section \<open>Dictionaries\<close>

lemma update_absent:
  "map_of al k = None \<Longrightarrow> AList.update k v al = al @ [(k, v)]"
  by (induction al) (auto split: if_splits)

lemma count_key:
  "distinct (map fst al) \<Longrightarrow>
   length (filter (\<lambda>(key, v). key = k) al) = (if map_of al k = None then 0 else 1)"
proof (induction al)
  case Nil
  then show ?case by simp
next
  case (Cons p al)
  obtain k' v' where p: "p = (k', v')" by (cases p)
  show ?case
  proof (cases "k' = k")
    case True
    with Cons.prems p have "k \<notin> fst ` set al" by auto
    then have "filter (\<lambda>(key, v). key = k) al = []"
      by (force simp: filter_empty_conv)
    with True p show ?thesis by simp
  next
    case False
    with Cons p show ?thesis by simp
  qed
qed

lemma delete_filter: "AList.delete k al = filter (\<lambda>(key, v). key \<noteq> k) al"
  by (induction al) (auto simp: AList.delete_eq)

section \<open>Connections\<close>

lemma add_connection_returns_None: "fst (add_connection a b arg c) = VNone"
  by (simp add: add_connection_def Let_def)

lemma add_connection_inserts:
  assumes "dict_contains (nodes c) a" "dict_contains (nodes c) b" "a \<noteq> b"
  shows "dict_contains (connections (snd (add_connection a b arg c))) (min a b, max a b)"
  using assms
  by (simp add: add_connection_def Let_def dict_contains_def update_conv')

lemma add_connection_keeps_nodes: "nodes (snd (add_connection a b arg c)) = nodes c"
  by (simp add: add_connection_def Let_def)

lemma add_connection_distinct:
  "distinct (dict_keys (connections c)) \<Longrightarrow>
   distinct (dict_keys (connections (snd (add_connection a b arg c))))"
  by (simp add: add_connection_def Let_def dict_keys_def distinct_update)

lemma add_connection_present:
  "dict_contains (connections c) (min a b, max a b) \<Longrightarrow> snd (add_connection a b arg c) = c"
  by (simp add: add_connection_def Let_def)

section \<open>Deleting a node\<close>

lemma connections_ok_delete:
  assumes "connections_ok c"
  shows "connections_ok (c\<lparr>connections := AList.delete k (connections c)\<rparr>)"
  using assms
  by (auto simp: connections_ok_def dict_keys_def delete_filter distinct_map_filter list_all_iff)

lemma delete_connection_at_key:
  assumes ok: "connections_ok c" and stored: "dict_get (connections c) k = Some conn"
  shows "delete_connection conn c = c\<lparr>connections := AList.delete k (connections c)\<rparr>"
proof -
  from stored have mem: "(k, conn) \<in> set (connections c)"
    by (auto simp: dict_get_def dest: map_of_SomeD)
  from ok have keys: "\<And>k' conn'. (k', conn') \<in> set (connections c) \<Longrightarrow> k' = conn_key_of conn'"
    by (auto simp: connections_ok_def list_all_iff)
  have "find (\<lambda>(key, conn'). conn' = conn) (connections c) \<noteq> None"
  proof
    assume "find (\<lambda>(key, conn'). conn' = conn) (connections c) = None"
    then have "\<not> (\<exists>p. p \<in> set (connections c) \<and> (case p of (key, conn') \<Rightarrow> conn' = conn))"
      by (rule iffD1 [OF find_None_iff])
    moreover have "(k, conn) \<in> set (connections c) \<and> (case (k, conn) of (key, conn') \<Rightarrow> conn' = conn)"
      using mem by simp
    ultimately show False by blast
  qed
  then obtain k' conn' where
    found: "find (\<lambda>(key, conn'). conn' = conn) (connections c) = Some (k', conn')"
    by auto
  then have "conn' = conn" and "(k', conn') \<in> set (connections c)"
    by (auto simp: find_Some_iff in_set_conv_nth)
  with keys [OF mem] keys [of k' conn'] have "k' = k" by simp
  with found show ?thesis
    by (simp add: delete_connection_def)
qed

lemma delete_connections_filter:
  assumes "connections_ok c" and "distinct ks" and "set ks \<subseteq> set (dict_keys (connections c))"
  shows "delete_connections ks c =
           Inr (c\<lparr>connections := filter (\<lambda>(key, conn). key \<notin> set ks) (connections c)\<rparr>)"
  using assms
proof (induction ks arbitrary: c)
  case Nil
  then show ?case by simp
next
  case (Cons k ks)
  let ?c1 = "c\<lparr>connections := AList.delete k (connections c)\<rparr>"
  from Cons.prems(3) have "k \<in> fst ` set (connections c)"
    by (simp add: dict_keys_def)
  then obtain conn where stored: "dict_get (connections c) k = Some conn"
    by (cases "map_of (connections c) k") (auto simp: dict_get_def map_of_eq_None_iff)
  have del: "delete_connection conn c = ?c1"
    using Cons.prems(1) stored by (rule delete_connection_at_key)
  have ok1: "connections_ok ?c1"
    using Cons.prems(1) by (rule connections_ok_delete)
  have sub1: "set ks \<subseteq> set (dict_keys (connections ?c1))"
  proof
    fix a
    assume a: "a \<in> set ks"
    with Cons.prems(2) have "a \<noteq> k" by auto
    from a Cons.prems(3) obtain v where "(a, v) \<in> set (connections c)"
      by (auto simp: dict_keys_def)
    with \<open>a \<noteq> k\<close> have "(a, v) \<in> set (filter (\<lambda>(key, v). key \<noteq> k) (connections c))"
      by simp
    then have "a \<in> fst ` set (filter (\<lambda>(key, v). key \<noteq> k) (connections c))"
      by force
    then show "a \<in> set (dict_keys (connections ?c1))"
      by (simp add: dict_keys_def delete_filter)
  qed
  from Cons.prems(2) have "distinct ks" by simp
  from Cons.IH [OF ok1 this sub1]
  have "delete_connections ks ?c1 =
          Inr (c\<lparr>connections := filter (\<lambda>(key, conn). key \<notin> set ks)
                                   (AList.delete k (connections c))\<rparr>)"
    by simp
  moreover have "filter (\<lambda>(key, conn). key \<notin> set ks) (AList.delete k (connections c))
                 = filter (\<lambda>(key, conn). key \<notin> set (k # ks)) (connections c)"
    by (auto simp: delete_filter intro: filter_cong)
  ultimately show ?case
    using stored del by simp
qed

lemma connections_to_remove_keys:
  "set (connections_to_remove x c) = {key \<in> set (dict_keys (connections c)). references x key}"
  by (force simp: connections_to_remove_def dict_keys_def references_def)

lemma connections_to_remove_distinct:
  "distinct (dict_keys (connections c)) \<Longrightarrow> distinct (connections_to_remove x c)"
  by (simp add: connections_to_remove_def dict_keys_def distinct_map_filter)

lemma cascade_result:
  assumes "connections_ok c"
  shows "delete_connections (connections_to_remove x c) c =
           Inr (c\<lparr>connections := filter (\<lambda>(key, conn). \<not> references x key) (connections c)\<rparr>)"
proof -
  have d: "distinct (connections_to_remove x c)"
    using assms by (simp add: connections_ok_def connections_to_remove_distinct)
  have sub: "set (connections_to_remove x c) \<subseteq> set (dict_keys (connections c))"
    by (auto simp: connections_to_remove_keys)
  have "filter (\<lambda>(key, conn). key \<notin> set (connections_to_remove x c)) (connections c)
        = filter (\<lambda>(key, conn). \<not> references x key) (connections c)"
    by (rule filter_cong) (force simp: connections_to_remove_keys dict_keys_def)+
  with delete_connections_filter [OF assms d sub] show ?thesis by simp
qed

lemma ends_of_key:
  "key = conn_key_of conn \<Longrightarrow> \<not> references x key \<Longrightarrow>
   source_node conn \<noteq> x \<and> target_node conn \<noteq> x"
  by (auto simp: conn_key_of_def references_def min_def max_def split: if_splits)

section \<open>Adding nodes\<close>

lemma add_node_result:
  assumes "add_node arg c g = Inr (i, c1, g1)"
  shows "\<exists>item. c1 = c\<lparr>nodes := AList.update (next_node_id c) item (nodes c),
                         next_node_id := next_node_id c + 1\<rparr>"
  using assms
  by (auto simp: add_node_def Let_def split: prod.splits sum.splits)

lemma add_node_count:
  assumes "add_node arg c g = Inr (i, c1, g1)" and "ids_fresh c"
  shows "get_node_count c1 = get_node_count c + 1" and "ids_fresh c1"
proof -
  from add_node_result [OF assms(1)] obtain item where
    c1: "c1 = c\<lparr>nodes := AList.update (next_node_id c) item (nodes c),
                 next_node_id := next_node_id c + 1\<rparr>"
    by blast
  from assms(2) have "next_node_id c \<notin> fst ` set (nodes c)"
    by (auto simp: ids_fresh_def list_all_iff dict_keys_def)
  then have "map_of (nodes c) (next_node_id c) = None"
    by (simp add: map_of_eq_None_iff)
  then have app: "AList.update (next_node_id c) item (nodes c) = nodes c @ [(next_node_id c, item)]"
    by (rule update_absent)
  show "get_node_count c1 = get_node_count c + 1"
    by (simp add: c1 app get_node_count_def)
  show "ids_fresh c1"
    using assms(2) by (auto simp: c1 app ids_fresh_def list_all_iff dict_keys_def)
qed

lemma add_discovered_nodes_count:
  "add_discovered_nodes ds c g = Inr (c', g') \<Longrightarrow> ids_fresh c \<Longrightarrow>
   get_node_count c' = get_node_count c + length ds \<and> ids_fresh c'"
proof (induction ds arbitrary: c g)
  case Nil
  then show ?case by simp
next
  case (Cons d ds)
  from Cons.prems(1) obtain nd g1 i c1 g2 where
    "add_node (Some nd) c g1 = Inr (i, c1, g2)" and
    rest: "add_discovered_nodes ds c1 g2 = Inr (c', g')"
    by (auto split: sum.splits prod.splits)
  from add_node_count [OF this(1) Cons.prems(2)] Cons.IH [OF rest]
  show ?case by simp
qed

section \<open>Saving and loading\<close>

lemma backup_path_differs: "backup_path file_path \<noteq> file_path"
  by (simp add: backup_path_def)

lemma touch_modified_metadata:
  assumes "dict_get data ''metadata'' = Some (VDict md)"
  shows "touch_modified now data =
           (None, AList.update ''metadata'' (VDict (AList.update ''modified'' (VStr now) md)) data)"
  using assms by (simp add: touch_modified_def dict_contains_def dict_get_def)

lemma rotate_backup_no_faults:
  "\<exists>fs1. rotate_backup no_faults file_path fs = (None, fs1)"
  by (simp add: rotate_backup_def no_faults_def Let_def)

lemma rotate_backup_moves:
  assumes "fs file_path = Some old" and "\<not> rename_fails fl"
    and "fs (backup_path file_path) = None \<or> \<not> remove_fails fl"
  shows "\<exists>fs1. rotate_backup fl file_path fs = (None, fs1) \<and>
               fs1 file_path = None \<and> fs1 (backup_path file_path) = Some old"
  using assms backup_path_differs [of file_path]
  by (auto simp: rotate_backup_def Let_def)

section \<open>Updating a node\<close>






section \<open>Layout\<close>

lemma apply_position_frame:
  "connections (apply_position e c) = connections c"
  "next_node_id (apply_position e c) = next_node_id c"
  "level (apply_position e c) = level c"
  by (auto simp: apply_position_def split: prod.splits option.splits)

lemma apply_position_keys:
  "dict_keys (nodes (apply_position e c)) = dict_keys (nodes c)"
proof -
  obtain i p where e: "e = (i, p)" by (cases e)
  show ?thesis
  proof (cases "dict_get (nodes c) i")
    case None
    with e show ?thesis by (simp add: apply_position_def)
  next
    case (Some item)
    then have "(i, item) \<in> set (nodes c)"
      by (auto simp: dict_get_def dest: map_of_SomeD)
    then have "i \<in> fst ` set (nodes c)"
      by force
    with e Some show ?thesis
      by (simp add: apply_position_def dict_keys_def update_keys)
  qed
qed

lemma apply_position_get:
  "dict_get (nodes (apply_position (i, p) c)) j =
     (if j = i then map_option (place_item p) (dict_get (nodes c) i)
      else dict_get (nodes c) j)"
  by (auto simp: apply_position_def dict_get_def update_conv' split: option.splits)

lemma fold_apply_position_frame:
  "connections (fold apply_position pos c) = connections c \<and>
   next_node_id (fold apply_position pos c) = next_node_id c \<and>
   level (fold apply_position pos c) = level c \<and>
   dict_keys (nodes (fold apply_position pos c)) = dict_keys (nodes c)"
  by (induction pos arbitrary: c) (simp_all add: apply_position_frame apply_position_keys)

lemma fold_apply_position_get:
  "distinct (map fst pos) \<Longrightarrow>
   dict_get (nodes (fold apply_position pos c)) j =
     (case map_of pos j of
        None \<Rightarrow> dict_get (nodes c) j
      | Some p \<Rightarrow> map_option (place_item p) (dict_get (nodes c) j))"
proof (induction pos arbitrary: c)
  case Nil
  then show ?case by simp
next
  case (Cons e pos)
  obtain i p where e: "e = (i, p)" by (cases e)
  from Cons.prems e have fresh: "map_of pos i = None" and d: "distinct (map fst pos)"
    by (auto simp: map_of_eq_None_iff)
  show ?case
  proof (cases "j = i")
    case True
    with Cons.IH [OF d, of "apply_position (i, p) c"] fresh e show ?thesis
      by (simp add: apply_position_get)
  next
    case False
    with Cons.IH [OF d, of "apply_position (i, p) c"] e show ?thesis
      by (simp add: apply_position_get split: option.splits)
  qed
qed

lemma place_item_data:
  "dict_get (node_data (place_item (nx, ny) item)) key =
     (if key = ''y'' then Some (VFloat (ny * 300 + 300))
      else if key = ''x'' then Some (VFloat (nx * 300 + 400))
      else dict_get (node_data item) key)"
  by (simp add: place_item_def Let_def dict_get_def update_conv')

lemma place_item_pos:
  "item_pos (place_item (nx, ny) item) = (nx * 300 + 400, ny * 300 + 300)"
  by (simp add: place_item_def Let_def)

section \<open>Loading a canvas\<close>

lemma dict_setdefault_get:
  "dict_get (dict_setdefault k v d) k' =
     (if k' = k \<and> dict_get d k = None then Some v else dict_get d k')"
  by (auto simp: dict_setdefault_def dict_contains_def dict_get_def update_conv')

lemma add_node_defaults_id:
  "dict_get (add_node_defaults i rx ry nd) ''id'' = dict_get nd ''id''"
  by (simp add: add_node_defaults_def dict_setdefault_get)

lemma add_node_some:
  assumes "add_node arg c g = Inr (i, c1, g1)"
  shows "i = next_node_id c \<and>
         (\<exists>rx ry p. c1 = c\<lparr>nodes := AList.update (next_node_id c)
                                   \<lparr>node_data = add_node_defaults (next_node_id c) rx ry
                                      (first_node_data (next_node_id c) arg),
                                    item_pos = p\<rparr> (nodes c),
                               next_node_id := next_node_id c + 1\<rparr>)"
  using assms
  by (auto simp: add_node_def Let_def first_node_data_def split: prod.splits sum.splits)

lemma first_data_id: "dict_get (first_node_data n arg) ''id'' = Some (VInt n)"
  by (cases arg) (simp_all add: first_node_data_def dict_get_def update_conv')

lemma add_node_overrides_id:
  assumes "add_node arg c g = Inr (i, c1, g1)"
  shows "i = next_node_id c \<and>
         (\<exists>item. dict_get (nodes c1) i = Some item \<and>
                  dict_get (node_data item) ''id'' = Some (VInt (next_node_id c)))"
proof -
  from add_node_some [OF assms] obtain rx ry p where
    i: "i = next_node_id c" and
    c1: "c1 = c\<lparr>nodes := AList.update (next_node_id c)
                   \<lparr>node_data = add_node_defaults (next_node_id c) rx ry
                      (first_node_data (next_node_id c) arg),
                    item_pos = p\<rparr> (nodes c),
                 next_node_id := next_node_id c + 1\<rparr>"
    by blast
  have "dict_get (nodes c1) i =
          Some \<lparr>node_data = add_node_defaults (next_node_id c) rx ry
                      (first_node_data (next_node_id c) arg),
                    item_pos = p\<rparr>"
    by (simp add: i c1 dict_get_def update_conv')
  then show ?thesis
    using i by (simp add: add_node_defaults_id first_data_id)
qed

lemma add_node_keeps_others:
  assumes "add_node arg c g = Inr (i, c1, g1)" and "j \<noteq> next_node_id c"
  shows "dict_get (nodes c1) j = dict_get (nodes c) j"
  using add_node_result [OF assms(1)] assms(2)
  by (auto simp: dict_get_def update_conv')

lemma add_node_frame:
  assumes "add_node arg c g = Inr (i, c1, g1)"
  shows "connections c1 = connections c" and "level c1 = level c"
  using add_node_result [OF assms] by auto

lemma add_node_keys:
  assumes "add_node arg c g = Inr (i, c1, g1)" and "ids_fresh c"
  shows "dict_keys (nodes c1) = dict_keys (nodes c) @ [next_node_id c]"
proof -
  from add_node_result [OF assms(1)] obtain item where
    c1: "c1 = c\<lparr>nodes := AList.update (next_node_id c) item (nodes c),
                 next_node_id := next_node_id c + 1\<rparr>"
    by blast
  from assms(2) have "next_node_id c \<notin> fst ` set (nodes c)"
    by (auto simp: ids_fresh_def list_all_iff dict_keys_def)
  then have "map_of (nodes c) (next_node_id c) = None"
    by (simp add: map_of_eq_None_iff)
  then show ?thesis
    by (simp add: c1 update_absent dict_keys_def)
qed

lemma load_nodes_Cons:
  assumes "load_nodes (v # rest) c g = Inr (c', g')"
  obtains arg i c1 g1 where "as_node_arg v = Inr arg" and "add_node arg c g = Inr (i, c1, g1)"
    and "load_nodes rest c1 g1 = Inr (c', g')"
  using assms by (auto split: sum.splits prod.splits)

lemma load_nodes_frame:
  "load_nodes ns c g = Inr (c', g') \<Longrightarrow> ids_fresh c \<Longrightarrow>
   next_node_id c' = next_node_id c + int (length ns) \<and>
   connections c' = connections c \<and> level c' = level c \<and> ids_fresh c' \<and>
   dict_keys (nodes c') =
     dict_keys (nodes c) @ map (\<lambda>k. next_node_id c + int k) [0..<length ns]"
proof (induction ns arbitrary: c g)
  case Nil
  then show ?case by simp
next
  case (Cons v rest)
  from Cons.prems(1) obtain arg i c1 g1 where
    step: "add_node arg c g = Inr (i, c1, g1)" and
    rest: "load_nodes rest c1 g1 = Inr (c', g')"
    by (rule load_nodes_Cons)
  note fresh1 = add_node_count(2) [OF step Cons.prems(2)]
  from Cons.IH [OF rest fresh1] add_node_id(2) [OF step] add_node_frame [OF step]
    add_node_keys [OF step Cons.prems(2)]
  show ?case
    by (simp add: upt_conv_Cons map_Suc_upt [symmetric] del: upt_Suc)
qed

lemma load_nodes_keeps:
  "load_nodes ns c g = Inr (c', g') \<Longrightarrow> j < next_node_id c \<Longrightarrow>
   dict_get (nodes c') j = dict_get (nodes c) j"
proof (induction ns arbitrary: c g)
  case Nil
  then show ?case by simp
next
  case (Cons v rest)
  from Cons.prems(1) obtain arg i c1 g1 where
    step: "add_node arg c g = Inr (i, c1, g1)" and
    rest: "load_nodes rest c1 g1 = Inr (c', g')"
    by (rule load_nodes_Cons)
  from add_node_id(2) [OF step] Cons.prems(2) have "j < next_node_id c1" by simp
  from Cons.IH [OF rest this] add_node_keeps_others [OF step, of j] Cons.prems(2)
  show ?case by simp
qed

lemma load_nodes_content:
  "load_nodes ns c g = Inr (c', g') \<Longrightarrow> k < length ns \<Longrightarrow>
   \<exists>arg rx ry item.
     as_node_arg (ns ! k) = Inr arg \<and>
     dict_get (nodes c') (next_node_id c + int k) = Some item \<and>
     node_data item = add_node_defaults (next_node_id c + int k) rx ry
                        (first_node_data (next_node_id c + int k) arg)"
proof (induction ns arbitrary: c g k)
  case Nil
  then show ?case by simp
next
  case (Cons v rest)
  from Cons.prems(1) obtain arg i c1 g1 where
    v: "as_node_arg v = Inr arg" and
    step: "add_node arg c g = Inr (i, c1, g1)" and
    rest: "load_nodes rest c1 g1 = Inr (c', g')"
    by (rule load_nodes_Cons)
  note next1 = add_node_id(2) [OF step]
  show ?case
  proof (cases k)
    case 0
    from add_node_some [OF step] obtain rx ry p where
      c1: "c1 = c\<lparr>nodes := AList.update (next_node_id c)
                     \<lparr>node_data = add_node_defaults (next_node_id c) rx ry
                        (first_node_data (next_node_id c) arg),
                      item_pos = p\<rparr> (nodes c),
                   next_node_id := next_node_id c + 1\<rparr>"
      by blast
    have "dict_get (nodes c') (next_node_id c) = dict_get (nodes c1) (next_node_id c)"
      using rest by (rule load_nodes_keeps) (simp add: next1)
    also have "\<dots> = Some \<lparr>node_data = add_node_defaults (next_node_id c) rx ry
                        (first_node_data (next_node_id c) arg),
                          item_pos = p\<rparr>"
      by (simp add: c1 dict_get_def update_conv')
    finally show ?thesis
      using 0 v by auto
  next
    case (Suc k')
    with Cons.prems(2) have "k' < length rest" by simp
    from Cons.IH [OF rest this] Suc next1 show ?thesis
      by (simp add: add.assoc)
  qed
qed

lemma set_update_subset: "set (AList.update k v al) \<subseteq> insert (k, v) (set al)"
  by (induction al) auto

lemma add_connection_ends:
  assumes "ends_are_nodes c"
  shows "ends_are_nodes (snd (add_connection a b arg c))"
proof (cases "dict_contains (nodes c) a \<and> dict_contains (nodes c) b \<and> a \<noteq> b \<and>
              \<not> dict_contains (connections c) (min a b, max a b)")
  case False
  with assms show ?thesis
    by (auto simp: add_connection_def Let_def)
next
  case True
  let ?conn = "\<lparr>source_node = a, target_node = b,
                 connection_data = (case arg of
                           None \<Rightarrow> [(''source'', VInt a), (''target'', VInt b),
                                    (''type'', VStr ''ethernet'')]
                         | Some d \<Rightarrow> d)\<rparr>"
  from True have new: "snd (add_connection a b arg c) =
      c\<lparr>connections := AList.update (min a b, max a b) ?conn (connections c)\<rparr>"
    by (simp add: add_connection_def Let_def)
  from True have ends: "dict_contains (nodes c) (min a b)" "dict_contains (nodes c) (max a b)"
    by (simp_all add: min_def max_def)
  have "dict_contains (nodes c) (fst key) \<and> dict_contains (nodes c) (snd key)"
    if "(key, conn) \<in> set (AList.update (min a b, max a b) ?conn (connections c))" for key conn
  proof -
    from that set_update_subset
    have "(key, conn) = ((min a b, max a b), ?conn) \<or> (key, conn) \<in> set (connections c)"
      by fastforce
    then show ?thesis
    proof
      assume "(key, conn) = ((min a b, max a b), ?conn)"
      with ends show ?thesis by simp
    next
      assume "(key, conn) \<in> set (connections c)"
      with assms show ?thesis
        by (auto simp: ends_are_nodes_def list_all_iff)
    qed
  qed
  then show ?thesis
    unfolding new by (auto simp: ends_are_nodes_def list_all_iff)
qed

lemma load_connection_nodes:
  "load_connection v c = Inr c1 \<Longrightarrow> nodes c1 = nodes c"
  by (auto simp: load_connection_def Let_def add_connection_keeps_nodes
      split: val.splits sum.splits option.splits if_splits)

lemma load_connection_ends:
  "load_connection v c = Inr c1 \<Longrightarrow> ends_are_nodes c \<Longrightarrow> ends_are_nodes c1"
  by (auto simp: load_connection_def Let_def add_connection_ends
      split: val.splits sum.splits option.splits if_splits)

lemma load_connections_ends:
  "load_connections cs c = Inr c' \<Longrightarrow> ends_are_nodes c \<Longrightarrow>
   nodes c' = nodes c \<and> ends_are_nodes c'"
proof (induction cs arbitrary: c)
  case Nil
  then show ?case by simp
next
  case (Cons v cs)
  from Cons.prems(1) obtain c1 where
    step: "load_connection v c = Inr c1" and rest: "load_connections cs c1 = Inr c'"
    by (auto split: sum.splits)
  from Cons.IH [OF rest load_connection_ends [OF step Cons.prems(2)]]
    load_connection_nodes [OF step]
  show ?case by simp
qed

lemma load_connection_dropped:
  assumes "dict_get cd ''source'' = Some (VInt s)" and "dict_get cd ''target'' = Some (VInt t)"
    and "\<not> dict_contains (nodes c) s \<or> \<not> dict_contains (nodes c) t"
  shows "load_connection (VDict cd) c = Inr c"
  using assms
  by (auto simp: load_connection_def Let_def dict_get_def dict_get_default_def
      add_connection_def)

lemma load_data_parts:
  assumes "dict_get data ''nodes'' = Some (VList ns)" and "load_data data c g = Inr (c', g')"
  obtains c1 cs where "load_nodes ns (clear c) g = Inr (c1, g')"
    and "load_connections cs c1 = Inr c'"
  using assms
  by (auto simp: load_data_def dict_get_def dict_get_default_def
      split: sum.splits prod.splits)




text \<open>
  Claim C2, as stated: for all ids \<open>a\<close>, \<open>b\<close> of nodes of a layer, two calls of
  \<open>add_connection(a, b)\<close> leave exactly one connection for the pair; the first call returns
  true, the second false. It fails twice: \<open>add_connection\<close> returns \<open>None\<close> on every path
  (here from a first, inserting call), and for \<open>a = b\<close> no connection is stored at all.
\<close>

theorem add_connection_no_true_no_self_loop:
  "(case add_nodes [None, None] (new_canvas ''l2'') const_rng of
      Inl e \<Rightarrow> False
    | Inr (is, c, g) \<Rightarrow>
        fst (add_connection 1 2 None c) = VNone \<and>
        fst (add_connection 1 2 None c) \<noteq> VBool True \<and>
        pair_count 1 2 (snd (add_connection 1 2 None c)) = 1 \<and>
        pair_count 1 1 (snd (add_connection 1 1 None (snd (add_connection 1 1 None c)))) = 0)"
  by code_simp

text \<open>
  Claim C2, amended: for all distinct ids \<open>a\<close>, \<open>b\<close> of nodes of a layer, two calls of
  \<open>add_connection(a, b)\<close> leave exactly one connection for the unordered pair, stored under
  \<open>(min a b, max a b)\<close>; the second call changes nothing; both calls return \<open>None\<close>.
\<close>

theorem add_connection_twice:
  assumes "dict_contains (nodes c) a" and "dict_contains (nodes c) b" and "a \<noteq> b"
    and "distinct (dict_keys (connections c))"
  shows "pair_count a b (snd (add_connection a b arg2 (snd (add_connection a b arg1 c)))) = 1 \<and>
         snd (add_connection a b arg2 (snd (add_connection a b arg1 c)))
           = snd (add_connection a b arg1 c) \<and>
         fst (add_connection a b arg1 c) = VNone \<and>
         fst (add_connection a b arg2 (snd (add_connection a b arg1 c))) = VNone"
proof -
  let ?c1 = "snd (add_connection a b arg1 c)"
  have present: "dict_contains (connections ?c1) (min a b, max a b)"
    using assms(1-3) by (rule add_connection_inserts)
  then have same: "snd (add_connection a b arg2 ?c1) = ?c1"
    by (rule add_connection_present)
  have "distinct (map fst (connections ?c1))"
    using add_connection_distinct [OF assms(4)] by (simp add: dict_keys_def)
  from count_key [OF this, of "(min a b, max a b)"] present
  have "pair_count a b ?c1 = 1"
    by (simp add: pair_count_def dict_contains_def)
  with same show ?thesis
    by (simp add: add_connection_returns_None)
qed

theorem add_connection_twice_witness:
  "(case add_nodes [None, None] (new_canvas ''l2'') const_rng of
      Inl e \<Rightarrow> False
    | Inr (is, c, g) \<Rightarrow>
        dict_contains (nodes c) 1 \<and> dict_contains (nodes c) 2 \<and>
        distinct (dict_keys (connections c)) \<and>
        pair_count 1 2 (snd (add_connection 1 2 None (snd (add_connection 1 2 None c)))) = 1 \<and>
        get_connection_count (snd (add_connection 1 2 None (snd (add_connection 1 2 None c)))) = 1)"
proof (cases "add_nodes [None, None] (new_canvas ''l2'') const_rng")
  case (Inl e)
  have "isl (add_nodes [None, None] (new_canvas ''l2'') const_rng) = False"
    by code_simp
  with Inl show ?thesis by simp
next
  case (Inr r)
  obtain "is" c g where r: "r = (is, c, g)" by (cases r) auto
  have "(case add_nodes [None, None] (new_canvas ''l2'') const_rng of
           Inl e \<Rightarrow> False
         | Inr (is, c, g) \<Rightarrow>
             dict_contains (nodes c) 1 \<and> dict_contains (nodes c) 2 \<and>
             distinct (dict_keys (connections c)) \<and>
             get_connection_count
               (snd (add_connection 1 2 None (snd (add_connection 1 2 None c)))) = 1)"
    by code_simp
  with Inr r have h: "dict_contains (nodes c) 1" "dict_contains (nodes c) 2"
    "distinct (dict_keys (connections c))"
    "get_connection_count (snd (add_connection 1 2 None (snd (add_connection 1 2 None c)))) = 1"
    by simp_all
  have "(1::int) \<noteq> 2" by simp
  from add_connection_twice [OF h(1) h(2) this h(3), of None None]
  have "pair_count 1 2 (snd (add_connection 1 2 None (snd (add_connection 1 2 None c)))) = 1"
    by (rule conjunct1)
  with h show ?thesis unfolding Inr r by simp
qed

text \<open>
  Claim C3: for every node id \<open>x\<close> present on a canvas, \<open>delete_node(x)\<close> first removes
  exactly the connections that reference \<open>x\<close> (after that step \<open>x\<close> is still a node and no
  connection has \<open>x\<close> as a key component or as an end) and then removes the node; every other
  node stays as it was.
\<close>

theorem delete_node_cascade:
  assumes "connections_ok c" and "dict_contains (nodes c) x"
  shows "delete_connections (connections_to_remove x c) c =
           Inr (c\<lparr>connections := filter (\<lambda>(key, conn). \<not> references x key) (connections c)\<rparr>) \<and>
         delete_node x c =
           Inr (c\<lparr>connections := filter (\<lambda>(key, conn). \<not> references x key) (connections c),
                   nodes := AList.delete x (nodes c)\<rparr>) \<and>
         list_all (\<lambda>(key, conn). \<not> references x key \<and> source_node conn \<noteq> x \<and> target_node conn \<noteq> x)
           (filter (\<lambda>(key, conn). \<not> references x key) (connections c)) \<and>
         \<not> dict_contains (AList.delete x (nodes c)) x \<and>
         (\<forall>m. m \<noteq> x \<longrightarrow> dict_get (AList.delete x (nodes c)) m = dict_get (nodes c) m)"
proof -
  note casc = cascade_result [OF assms(1), of x]
  have "delete_node x c =
          Inr (c\<lparr>connections := filter (\<lambda>(key, conn). \<not> references x key) (connections c),
                  nodes := AList.delete x (nodes c)\<rparr>)"
    using assms(2) by (simp add: delete_node_def casc)
  moreover have "list_all (\<lambda>(key, conn). \<not> references x key \<and> source_node conn \<noteq> x \<and> target_node conn \<noteq> x)
           (filter (\<lambda>(key, conn). \<not> references x key) (connections c))"
  proof -
    have "source_node conn \<noteq> x \<and> target_node conn \<noteq> x"
      if "(key, conn) \<in> set (connections c)" and "\<not> references x key" for key conn
    proof -
      from assms(1) that(1) have "key = conn_key_of conn"
        by (auto simp: connections_ok_def list_all_iff)
      then show ?thesis using that(2) by (rule ends_of_key)
    qed
    then show ?thesis
      by (auto simp: list_all_iff)
  qed
  moreover have "\<not> dict_contains (AList.delete x (nodes c)) x"
    by (simp add: dict_contains_def delete_conv')
  moreover have "\<forall>m. m \<noteq> x \<longrightarrow> dict_get (AList.delete x (nodes c)) m = dict_get (nodes c) m"
    by (simp add: dict_get_def)
  ultimately show ?thesis using casc by simp
qed

theorem delete_node_cascade_witness:
  "connections_ok chain_canvas \<and> dict_contains (nodes chain_canvas) 2 \<and>
   dict_keys (connections chain_canvas) = [(1, 2), (2, 3)] \<and>
   delete_node 2 chain_canvas =
     Inr (chain_canvas\<lparr>connections := filter (\<lambda>(key, conn). \<not> references 2 key)
                                        (connections chain_canvas),
                       nodes := AList.delete 2 (nodes chain_canvas)\<rparr>) \<and>
   filter (\<lambda>(key, conn). \<not> references 2 key) (connections chain_canvas) = [] \<and>
   dict_keys (AList.delete 2 (nodes chain_canvas)) = [1, 3]"
proof -
  have h1: "connections_ok chain_canvas" by code_simp
  have h2: "dict_contains (nodes chain_canvas) 2" by code_simp
  have e1: "dict_keys (connections chain_canvas) = [(1, 2), (2, 3)]" by code_simp
  have e2: "filter (\<lambda>(key, conn). \<not> references 2 key) (connections chain_canvas) = []"
    by code_simp
  have e3: "dict_keys (AList.delete 2 (nodes chain_canvas)) = [1, 3]" by code_simp
  from delete_node_cascade [OF h1 h2]
  have "delete_node 2 chain_canvas =
     Inr (chain_canvas\<lparr>connections := filter (\<lambda>(key, conn). \<not> references 2 key)
                                        (connections chain_canvas),
                       nodes := AList.delete 2 (nodes chain_canvas)\<rparr>)"
    by blast
  with h1 h2 e1 e2 e3 show ?thesis by blast
qed

text \<open>
  Claim C4 says that merging the same list of discovered hosts twice gives the node count
  of merging it once. The merge of the main window does not look at the addresses already
  on a canvas: on a freshly started application, the host \<open>10.0.0.5\<close> merged once gives one
  node on every canvas, merged twice two.
\<close>

theorem discovery_merge_twice_adds_again:
  "(case on_nodes_discovered [host_10_0_0_5] new_app const_rng of
      Inl e \<Rightarrow> False
    | Inr (once, g1) \<Rightarrow>
        (case on_nodes_discovered [host_10_0_0_5] once g1 of
           Inl e \<Rightarrow> False
         | Inr (twice, g2) \<Rightarrow>
             map get_node_count [canvas_l1 once, canvas_l2 once, canvas_l3 once] = [1, 1, 1] \<and>
             map get_node_count [canvas_l1 twice, canvas_l2 twice, canvas_l3 twice] = [2, 2, 2]))"
  by code_simp

text \<open>
  Claim C8 says that merging \<open>[{ip: 10.0.0.5}, {ip: 10.0.0.5}]\<close> into an empty store creates
  exactly one node, whose \<open>l3.ip\<close> is \<open>10.0.0.5\<close>. The canvas creates two nodes; the address is
  stored under the top-level key \<open>ip\<close>, and \<open>l3\<close> gets the default of \<open>add_node\<close>.
\<close>

theorem discovered_nodes_l3_default:
  "(case add_discovered_nodes [host_10_0_0_5, host_10_0_0_5] (new_canvas ''l1'') const_rng of
      Inl e \<Rightarrow> False
    | Inr (c, g) \<Rightarrow>
        get_node_count c = 2 \<and>
        map (\<lambda>(node_id, node_item).
               (node_id, dict_get (node_data node_item) ''ip'', l3_ip (node_data node_item)))
            (nodes c)
          = [(1, Some (VStr ''10.0.0.5''), Some (VStr ''192.168.1.1'')),
             (2, Some (VStr ''10.0.0.5''), Some (VStr ''192.168.1.2''))])"
  by code_simp

text \<open>
  Claim C5, as stated: for every well-formed document \<open>D\<close>, loading what was saved gives \<open>D\<close>
  back except for the \<open>modified\<close> entry of the metadata. It fails: \<open>load_project\<close> adds a
  \<open>loaded\<close> entry to the metadata, so the two documents differ also with \<open>modified\<close> left out.
\<close>

theorem load_save_adds_loaded:
  "(case save_project no_faults ''2024-02-02T00:00:00'' sample_document ''net.json''
           empty_fs new_data_manager of
      (ok, saved, fs1, dm1) \<Rightarrow>
        (case load_project ''2024-03-03T00:00:00'' ''net.json'' fs1 dm1 of
           Inl e \<Rightarrow> False
         | Inr (loaded, dm2) \<Rightarrow>
             ok \<and> strip_modified loaded \<noteq> strip_modified sample_document \<and>
             dict_get (strip_modified sample_document) ''metadata''
               = Some (VDict [(''name'', VStr ''net''),
                              (''created'', VStr ''2024-01-01T00:00:00''),
                              (''version'', VStr ''1.2'')]) \<and>
             dict_get (strip_modified loaded) ''metadata''
               = Some (VDict [(''name'', VStr ''net''),
                              (''created'', VStr ''2024-01-01T00:00:00''),
                              (''version'', VStr ''1.2''),
                              (''loaded'', VStr ''2024-03-03T00:00:00'')])))"
  by (simp add: save_project_def load_project_def no_faults_def touch_modified_def
      rotate_backup_def write_json_def validate_project_data_def sample_document_def
      create_new_project_def empty_fs_def new_data_manager_def strip_modified_def
      dict_contains_def dict_get_def dict_setdefault_def Let_def)

text \<open>
  Claim C5, amended: for every document \<open>D\<close> that has a metadata dictionary and a
  \<open>topologies\<close> entry, a save without faults succeeds, and loading the saved file gives \<open>D\<close>
  back except for two entries of the metadata: \<open>modified\<close>, set by the save, and \<open>loaded\<close>, set
  by the load. Nothing else is added, removed or changed.
\<close>

theorem load_save_roundtrip:
  assumes "dict_get D ''metadata'' = Some (VDict md)" and "dict_contains D ''topologies''"
  shows "(case save_project no_faults now1 D file_path fs dm of
            (ok, saved, fs1, dm1) \<Rightarrow>
              ok \<and>
              (case load_project now2 file_path fs1 dm1 of
                 Inl e \<Rightarrow> False
               | Inr (loaded, dm2) \<Rightarrow>
                   loaded = AList.update ''metadata''
                              (VDict (AList.update ''loaded'' (VStr now2)
                                        (AList.update ''modified'' (VStr now1) md))) D))"
proof -
  let ?D1 = "AList.update ''metadata'' (VDict (AList.update ''modified'' (VStr now1) md)) D"
  obtain fs1 where rot: "rotate_backup no_faults file_path fs = (None, fs1)"
    using rotate_backup_no_faults by blast
  have wr: "write_result no_faults = WriteOk"
    by (simp add: no_faults_def)
  have save: "save_project no_faults now1 D file_path fs dm =
                (True, ?D1, fs1(file_path \<mapsto> JsonText (VDict ?D1)),
                 dm\<lparr>current_project := Some ?D1\<rparr>)"
    by (simp add: save_project_def touch_modified_metadata [OF assms(1)] rot write_json_def wr)
  have topo: "dict_contains ?D1 ''topologies''"
    using assms(2) by (simp add: dict_contains_def update_conv')
  have meta: "dict_get ?D1 ''metadata'' = Some (VDict (AList.update ''modified'' (VStr now1) md))"
    by (simp add: dict_get_def update_conv')
  have "load_project now2 file_path (fs1(file_path \<mapsto> JsonText (VDict ?D1)))
          (dm\<lparr>current_project := Some ?D1\<rparr>)
        = Inr (AList.update ''metadata''
                 (VDict (AList.update ''loaded'' (VStr now2)
                           (AList.update ''modified'' (VStr now1) md))) D,
               dm\<lparr>current_project := Some (AList.update ''metadata''
                 (VDict (AList.update ''loaded'' (VStr now2)
                           (AList.update ''modified'' (VStr now1) md))) D)\<rparr>)"
    using topo meta
    by (simp add: load_project_def validate_project_data_def dict_setdefault_def
        dict_contains_def dict_get_def Let_def)
  with save show ?thesis by simp
qed

theorem load_save_roundtrip_witness:
  "dict_get sample_document ''metadata''
     = Some (VDict [(''name'', VStr ''net''), (''created'', VStr ''2024-01-01T00:00:00''),
                    (''modified'', VStr ''2024-01-01T00:00:00''), (''version'', VStr ''1.2'')]) \<and>
   dict_contains sample_document ''topologies'' \<and>
   (case save_project no_faults ''t1'' sample_document ''net.json'' saved_fs new_data_manager of
      (ok, saved, fs1, dm1) \<Rightarrow>
        ok \<and>
        (case load_project ''t2'' ''net.json'' fs1 dm1 of
           Inl e \<Rightarrow> False
         | Inr (loaded, dm2) \<Rightarrow>
             loaded = AList.update ''metadata''
                        (VDict [(''name'', VStr ''net''),
                                (''created'', VStr ''2024-01-01T00:00:00''),
                                (''modified'', VStr ''t1''), (''version'', VStr ''1.2''),
                                (''loaded'', VStr ''t2'')]) sample_document))"
proof -
  have h1: "dict_get sample_document ''metadata''
     = Some (VDict [(''name'', VStr ''net''), (''created'', VStr ''2024-01-01T00:00:00''),
                    (''modified'', VStr ''2024-01-01T00:00:00''), (''version'', VStr ''1.2'')])"
    by (simp add: sample_document_def create_new_project_def dict_get_def)
  have h2: "dict_contains sample_document ''topologies''"
    by (simp add: sample_document_def create_new_project_def dict_contains_def)
  from load_save_roundtrip [OF h1 h2, where ?now1.0 = "''t1''" and file_path = "''net.json''"
      and fs = saved_fs and dm = new_data_manager and ?now2.0 = "''t2''"]
  have "(case save_project no_faults ''t1'' sample_document ''net.json'' saved_fs
               new_data_manager of
      (ok, saved, fs1, dm1) \<Rightarrow>
        ok \<and>
        (case load_project ''t2'' ''net.json'' fs1 dm1 of
           Inl e \<Rightarrow> False
         | Inr (loaded, dm2) \<Rightarrow>
             loaded = AList.update ''metadata''
                        (VDict [(''name'', VStr ''net''),
                                (''created'', VStr ''2024-01-01T00:00:00''),
                                (''modified'', VStr ''t1''), (''version'', VStr ''1.2''),
                                (''loaded'', VStr ''t2'')]) sample_document))"
    by (auto split: prod.splits sum.splits)
  with h1 h2 show ?thesis by blast
qed

text \<open>
  Claim C6, as stated: when a save over an existing file fails in writing the new
  document, the old file is still at its path, untouched. It fails: the old file is renamed
  to the backup path before the new one is opened, so after a failed write the path holds
  no file.
\<close>

theorem failed_save_moves_old_file:
  "(case save_project open_fails ''2024-02-02T00:00:00'' sample_document ''net.json''
           saved_fs new_data_manager of
      (ok, saved, fs1, dm1) \<Rightarrow>
        \<not> ok \<and>
        saved_fs ''net.json'' = Some (JsonText (VDict sample_document)) \<and>
        fs1 ''net.json'' = None \<and>
        fs1 ''net.json.backup'' = Some (JsonText (VDict sample_document)))"
  by (simp add: save_project_def open_fails_def touch_modified_def rotate_backup_def
      write_json_def backup_path_def saved_fs_def empty_fs_def sample_document_def
      create_new_project_def dict_contains_def dict_get_def Let_def)

text \<open>
  Claim C6, amended: for every save over an existing file whose backup rotation goes
  through and whose write of the new document then fails, \<open>save_project\<close> returns \<open>False\<close> and
  the old content is intact at the backup path, to which the old file was renamed before
  the write; the path itself holds no file when the open failed, and the text written so
  far when \<open>json.dump\<close> failed.
\<close>

theorem failed_save_keeps_backup:
  assumes "fs file_path = Some old"
    and "fst (touch_modified now data) = None"
    and "\<not> rename_fails fl"
    and "fs (backup_path file_path) = None \<or> \<not> remove_fails fl"
    and "write_result fl \<noteq> WriteOk"
  shows "(case save_project fl now data file_path fs dm of
            (ok, saved, fs1, dm1) \<Rightarrow>
              \<not> ok \<and>
              fs1 (backup_path file_path) = Some old \<and>
              fs1 file_path = (case write_result fl of
                                 DumpFails partial \<Rightarrow> Some (BadText partial)
                               | _ \<Rightarrow> None) \<and>
              dm1 = dm)"
proof -
  obtain data1 where touch: "touch_modified now data = (None, data1)"
    using assms(2) by (cases "touch_modified now data") auto
  from rotate_backup_moves [OF assms(1) assms(3) assms(4)] obtain fs1 where
    rot: "rotate_backup fl file_path fs = (None, fs1)" and
    gone: "fs1 file_path = None" and kept: "fs1 (backup_path file_path) = Some old"
    by blast
  show ?thesis
    using assms(5) gone kept backup_path_differs [of file_path]
    by (cases "write_result fl") (simp_all add: save_project_def touch rot write_json_def)
qed

theorem failed_save_keeps_backup_witness:
  "saved_fs ''net.json'' = Some (JsonText (VDict sample_document)) \<and>
   fst (touch_modified ''t1'' sample_document) = None \<and>
   \<not> rename_fails open_fails \<and> saved_fs (backup_path ''net.json'') = None \<and>
   write_result open_fails \<noteq> WriteOk \<and>
   (case save_project open_fails ''t1'' sample_document ''net.json'' saved_fs new_data_manager of
      (ok, saved, fs1, dm1) \<Rightarrow>
        \<not> ok \<and> fs1 (backup_path ''net.json'') = Some (JsonText (VDict sample_document)) \<and>
        fs1 ''net.json'' = None)"
proof -
  have h1: "saved_fs ''net.json'' = Some (JsonText (VDict sample_document))"
    by (simp add: saved_fs_def)
  have h2: "fst (touch_modified ''t1'' sample_document) = None"
    by (simp add: touch_modified_def sample_document_def create_new_project_def
        dict_contains_def dict_get_def)
  have h3: "\<not> rename_fails open_fails" by (simp add: open_fails_def)
  have h4: "saved_fs (backup_path ''net.json'') = None"
    by (simp add: saved_fs_def empty_fs_def backup_path_def)
  then have h4': "saved_fs (backup_path ''net.json'') = None \<or> \<not> remove_fails open_fails"
    by simp
  have h5: "write_result open_fails \<noteq> WriteOk" by (simp add: open_fails_def)
  have wr: "write_result open_fails = OpenFails" by (simp add: open_fails_def)
  from failed_save_keeps_backup [OF h1 h2 h3 h4' h5, of new_data_manager]
  have "(case save_project open_fails ''t1'' sample_document ''net.json'' saved_fs
               new_data_manager of
      (ok, saved, fs1, dm1) \<Rightarrow>
        \<not> ok \<and> fs1 (backup_path ''net.json'') = Some (JsonText (VDict sample_document)) \<and>
        fs1 ''net.json'' = None)"
    by (auto simp: wr split: prod.splits)
  with h1 h2 h3 h4 h5 show ?thesis by blast
qed




text \<open>
  Claim C9: for every canvas, \<open>auto_layout\<close> changes nothing but positions. The node keys
  (and their order), the connections, the counter and the level are as before; in a node's
  data every entry other than \<open>x\<close> and \<open>y\<close> is as before; and a node for which the layout
  returns the normalized position \<open>(nx, ny)\<close> gets \<open>x = nx * 300 + 400\<close> and
  \<open>y = ny * 300 + 300\<close>, in its data and as the position of its item. A node for which the
  layout returns nothing is not touched. The layout result is a dictionary, so its keys are
  distinct; numbers are exact here, where the program computes in floating point.
\<close>

theorem auto_layout_only_moves:
  assumes "distinct (map fst (spring_layout (dict_keys (nodes c)) (dict_keys (connections c))))"
  shows "dict_keys (nodes (auto_layout spring_layout c)) = dict_keys (nodes c) \<and>
         connections (auto_layout spring_layout c) = connections c \<and>
         next_node_id (auto_layout spring_layout c) = next_node_id c \<and>
         level (auto_layout spring_layout c) = level c \<and>
         (\<forall>i item. dict_get (nodes c) i = Some item \<longrightarrow>
            (\<exists>item'. dict_get (nodes (auto_layout spring_layout c)) i = Some item' \<and>
               (\<forall>key. key \<noteq> ''x'' \<and> key \<noteq> ''y'' \<longrightarrow>
                  dict_get (node_data item') key = dict_get (node_data item) key) \<and>
               (case map_of (spring_layout (dict_keys (nodes c)) (dict_keys (connections c))) i of
                  None \<Rightarrow> item' = item
                | Some (nx, ny) \<Rightarrow>
                    dict_get (node_data item') ''x'' = Some (VFloat (nx * 300 + 400)) \<and>
                    dict_get (node_data item') ''y'' = Some (VFloat (ny * 300 + 300)) \<and>
                    item_pos item' = (nx * 300 + 400, ny * 300 + 300))))"
proof (cases "nodes c = []")
  case True
  then show ?thesis
    by (simp add: auto_layout_def dict_get_def)
next
  case False
  let ?pos = "spring_layout (dict_keys (nodes c)) (dict_keys (connections c))"
  from False have al: "auto_layout spring_layout c = fold apply_position ?pos c"
    by (simp add: auto_layout_def)
  note frame = fold_apply_position_frame [of ?pos c]
  note get = fold_apply_position_get [OF assms, of c]
  have "\<exists>item'. dict_get (nodes (fold apply_position ?pos c)) i = Some item' \<and>
               (\<forall>key. key \<noteq> ''x'' \<and> key \<noteq> ''y'' \<longrightarrow>
                  dict_get (node_data item') key = dict_get (node_data item) key) \<and>
               (case map_of ?pos i of
                  None \<Rightarrow> item' = item
                | Some (nx, ny) \<Rightarrow>
                    dict_get (node_data item') ''x'' = Some (VFloat (nx * 300 + 400)) \<and>
                    dict_get (node_data item') ''y'' = Some (VFloat (ny * 300 + 300)) \<and>
                    item_pos item' = (nx * 300 + 400, ny * 300 + 300))"
    if item: "dict_get (nodes c) i = Some item" for i item
  proof (cases "map_of ?pos i")
    case None
    with get [of i] item show ?thesis by simp
  next
    case (Some p)
    obtain nx ny where p: "p = (nx, ny)" by (cases p)
    from get [of i] item Some p
    have "dict_get (nodes (fold apply_position ?pos c)) i = Some (place_item (nx, ny) item)"
      by simp
    with Some p show ?thesis
      by (simp add: place_item_data place_item_pos)
  qed
  with frame show ?thesis
    unfolding al by blast
qed

theorem auto_layout_only_moves_witness:
  "distinct (map fst (row_layout (dict_keys (nodes chain_canvas))
                                  (dict_keys (connections chain_canvas)))) \<and>
   dict_keys (nodes (auto_layout row_layout chain_canvas)) = [1, 2, 3] \<and>
   connections (auto_layout row_layout chain_canvas) = connections chain_canvas \<and>
   (case dict_get (nodes (auto_layout row_layout chain_canvas)) 2 of
      None \<Rightarrow> False
    | Some item' \<Rightarrow>
        dict_get (node_data item') ''x'' = Some (VFloat 550) \<and>
        dict_get (node_data item') ''y'' = Some (VFloat 150) \<and>
        item_pos item' = (550, 150) \<and>
        dict_get (node_data item') ''id'' = Some (VInt 2) \<and>
        dict_get (node_data item') ''name'' = Some (VStr ''Device-2''))"
proof -
  have keys: "dict_keys (nodes chain_canvas) = [1, 2, 3]"
    by code_simp
  have h: "distinct (map fst (row_layout (dict_keys (nodes chain_canvas))
                                          (dict_keys (connections chain_canvas))))"
    by (simp add: keys row_layout_def)
  have pos: "map_of (row_layout (dict_keys (nodes chain_canvas))
                                (dict_keys (connections chain_canvas))) 2 = Some (1 / 2, - (1 / 2))"
    by (simp add: keys row_layout_def)
  have "(case dict_get (nodes chain_canvas) 2 of
           None \<Rightarrow> False
         | Some item \<Rightarrow> dict_get (node_data item) ''id'' = Some (VInt 2) \<and>
                         dict_get (node_data item) ''name'' = Some (VStr ''Device-2''))"
    by code_simp
  then obtain item where item: "dict_get (nodes chain_canvas) 2 = Some item"
    and old: "dict_get (node_data item) ''id'' = Some (VInt 2)"
      "dict_get (node_data item) ''name'' = Some (VStr ''Device-2'')"
    by (auto split: option.splits)
  note moves = auto_layout_only_moves [of row_layout chain_canvas, OF h]
  from moves have k: "dict_keys (nodes (auto_layout row_layout chain_canvas)) = [1, 2, 3]"
    and cs: "connections (auto_layout row_layout chain_canvas) = connections chain_canvas"
    using keys by simp_all
  from moves item obtain item' where
    item': "dict_get (nodes (auto_layout row_layout chain_canvas)) 2 = Some item'" and
    same: "\<And>key. key \<noteq> ''x'' \<and> key \<noteq> ''y'' \<Longrightarrow>
             dict_get (node_data item') key = dict_get (node_data item) key" and
    moved: "(case map_of (row_layout (dict_keys (nodes chain_canvas))
                                     (dict_keys (connections chain_canvas))) 2 of
               None \<Rightarrow> item' = item
             | Some (nx, ny) \<Rightarrow>
                 dict_get (node_data item') ''x'' = Some (VFloat (nx * 300 + 400)) \<and>
                 dict_get (node_data item') ''y'' = Some (VFloat (ny * 300 + 300)) \<and>
                 item_pos item' = (nx * 300 + 400, ny * 300 + 300))"
    by blast
  from moved have "dict_get (node_data item') ''x'' = Some (VFloat 550)"
    "dict_get (node_data item') ''y'' = Some (VFloat 150)"
    "item_pos item' = (550, 150)"
    by (simp_all add: pos)
  moreover from same [of "''id''"] same [of "''name''"] old
  have "dict_get (node_data item') ''id'' = Some (VInt 2)"
    "dict_get (node_data item') ''name'' = Some (VStr ''Device-2'')"
    by simp_all
  ultimately show ?thesis
    using h k cs item' by simp
qed

text \<open>
  Claim C10: \<open>add_node\<close> returns the value of the canvas's counter and stores it as the
  node's \<open>id\<close>, whatever id the given dictionary carried. So \<open>load_data\<close>, which clears the
  canvas first, numbers the loaded nodes 1, 2, ... in list order: the \<open>k\<close>-th element of the
  list (counting from 0) becomes node \<open>1 + k\<close>. When the element is a dictionary, the node's
  data is that dictionary with \<open>id\<close> set to \<open>1 + k\<close> and the defaults filled in; when it is
  \<open>None\<close>, the data is \<open>id = 1 + k\<close> and the defaults. Every connection on the loaded canvas
  joins two of these numbers, and a loaded connection one of whose ids is not among them is
  dropped: no entry, no error.
\<close>

theorem load_data_renumbers:
  assumes "dict_get data ''nodes'' = Some (VList ns)" and "load_data data c g = Inr (c', g')"
  shows "(\<forall>arg c0 g0 i c1 g1. add_node arg c0 g0 = Inr (i, c1, g1) \<longrightarrow>
            i = next_node_id c0 \<and>
            (\<exists>item. dict_get (nodes c1) i = Some item \<and>
                     dict_get (node_data item) ''id'' = Some (VInt (next_node_id c0)))) \<and>
         dict_keys (nodes c') = map (\<lambda>k. 1 + int k) [0..<length ns] \<and>
         (\<forall>k<length ns. \<exists>arg rx ry item.
            as_node_arg (ns ! k) = Inr arg \<and>
            dict_get (nodes c') (1 + int k) = Some item \<and>
            node_data item = add_node_defaults (1 + int k) rx ry
                               (first_node_data (1 + int k) arg) \<and>
            dict_get (node_data item) ''id'' = Some (VInt (1 + int k))) \<and>
         ends_are_nodes c' \<and>
         (\<forall>cd s t. dict_get cd ''source'' = Some (VInt s) \<and>
                   dict_get cd ''target'' = Some (VInt t) \<and>
                   (\<not> dict_contains (nodes c') s \<or> \<not> dict_contains (nodes c') t) \<longrightarrow>
                   load_connection (VDict cd) c' = Inr c')"
proof -
  from assms obtain c1 cs where
    ln: "load_nodes ns (clear c) g = Inr (c1, g')" and
    lc: "load_connections cs c1 = Inr c'"
    by (rule load_data_parts)
  have fresh: "ids_fresh (clear c)"
    by (simp add: ids_fresh_def clear_def dict_keys_def)
  have start: "next_node_id (clear c) = 1" "nodes (clear c) = []" "connections (clear c) = []"
    by (simp_all add: clear_def)
  from load_nodes_frame [OF ln fresh] start
  have keys1: "dict_keys (nodes c1) = map (\<lambda>k. 1 + int k) [0..<length ns]"
    and conns1: "connections c1 = []"
    by (simp_all add: dict_keys_def)
  from conns1 have "ends_are_nodes c1"
    by (simp add: ends_are_nodes_def)
  from load_connections_ends [OF lc this]
  have nodes': "nodes c' = nodes c1" and ends': "ends_are_nodes c'"
    by simp_all
  have part1: "\<forall>arg c0 g0 i c1 g1. add_node arg c0 g0 = Inr (i, c1, g1) \<longrightarrow>
            i = next_node_id c0 \<and>
            (\<exists>item. dict_get (nodes c1) i = Some item \<and>
                     dict_get (node_data item) ''id'' = Some (VInt (next_node_id c0)))"
    using add_node_overrides_id by blast
  have part3: "\<forall>k<length ns. \<exists>arg rx ry item.
            as_node_arg (ns ! k) = Inr arg \<and>
            dict_get (nodes c') (1 + int k) = Some item \<and>
            node_data item = add_node_defaults (1 + int k) rx ry
                               (first_node_data (1 + int k) arg) \<and>
            dict_get (node_data item) ''id'' = Some (VInt (1 + int k))"
  proof (intro allI impI)
    fix k
    assume "k < length ns"
    from load_nodes_content [OF ln this] start obtain arg rx ry item where
      k: "as_node_arg (ns ! k) = Inr arg" and
      item: "dict_get (nodes c1) (1 + int k) = Some item" and
      nd: "node_data item = add_node_defaults (1 + int k) rx ry
                              (first_node_data (1 + int k) arg)"
      by auto
    have "dict_get (node_data item) ''id'' = Some (VInt (1 + int k))"
      unfolding nd add_node_defaults_id by (rule first_data_id)
    with k item nd nodes'
    show "\<exists>arg rx ry item.
            as_node_arg (ns ! k) = Inr arg \<and>
            dict_get (nodes c') (1 + int k) = Some item \<and>
            node_data item = add_node_defaults (1 + int k) rx ry
                               (first_node_data (1 + int k) arg) \<and>
            dict_get (node_data item) ''id'' = Some (VInt (1 + int k))"
      by auto
  qed
  have part5: "\<forall>cd s t. dict_get cd ''source'' = Some (VInt s) \<and>
                   dict_get cd ''target'' = Some (VInt t) \<and>
                   (\<not> dict_contains (nodes c') s \<or> \<not> dict_contains (nodes c') t) \<longrightarrow>
                   load_connection (VDict cd) c' = Inr c'"
    using load_connection_dropped by blast
  have keys': "dict_keys (nodes c') = map (\<lambda>k. 1 + int k) [0..<length ns]"
    using keys1 nodes' by simp
  show ?thesis
    by (rule conjI [OF part1 conjI [OF keys' conjI [OF part3 conjI [OF ends' part5]]]])
qed

theorem load_data_renumbers_witness:
  "dict_get renumbered_document ''nodes''
     = Some (VList [VDict [(''id'', VInt 10), (''name'', VStr ''A'')],
                    VNone,
                    VDict [(''id'', VInt 20), (''name'', VStr ''B'')]]) \<and>
   (case load_data renumbered_document (new_canvas ''l1'') const_rng of
      Inl e \<Rightarrow> False
    | Inr (c', g') \<Rightarrow>
        dict_keys (nodes c') = [1, 2, 3] \<and>
        dict_keys (connections c') = [(1, 3)] \<and>
        ends_are_nodes c' \<and>
        load_connection (VDict [(''source'', VInt 10), (''target'', VInt 20)]) c' = Inr c' \<and>
        (case dict_get (nodes c') 2 of
           None \<Rightarrow> False
         | Some item \<Rightarrow>
             dict_get (node_data item) ''id'' = Some (VInt 2) \<and>
             dict_get (node_data item) ''name'' = Some (VStr ''Device-2'')) \<and>
        (case dict_get (nodes c') 3 of
           None \<Rightarrow> False
         | Some item \<Rightarrow>
             dict_get (node_data item) ''id'' = Some (VInt 3) \<and>
             dict_get (node_data item) ''name'' = Some (VStr ''B'')))"
proof -
  let ?ns = "[VDict [(''id'', VInt 10), (''name'', VStr ''A'')],
              VNone,
              VDict [(''id'', VInt 20), (''name'', VStr ''B'')]]"
  have h1: "dict_get renumbered_document ''nodes'' = Some (VList ?ns)"
    by (simp add: renumbered_document_def dict_get_def)
  have ev: "(case load_data renumbered_document (new_canvas ''l1'') const_rng of
      Inl e \<Rightarrow> False
    | Inr (c', g') \<Rightarrow>
        dict_keys (connections c') = [(1, 3)] \<and>
        \<not> dict_contains (nodes c') 10 \<and>
        (case dict_get (nodes c') 2 of
           None \<Rightarrow> False
         | Some item \<Rightarrow> dict_get (node_data item) ''name'' = Some (VStr ''Device-2'')) \<and>
        (case dict_get (nodes c') 3 of
           None \<Rightarrow> False
         | Some item \<Rightarrow> dict_get (node_data item) ''name'' = Some (VStr ''B'')))"
    by code_simp
  then obtain c' g' where
    h2: "load_data renumbered_document (new_canvas ''l1'') const_rng = Inr (c', g')" and
    conns: "dict_keys (connections c') = [(1, 3)]" and
    no10: "\<not> dict_contains (nodes c') 10" and
    name2: "(case dict_get (nodes c') 2 of
           None \<Rightarrow> False
         | Some item \<Rightarrow> dict_get (node_data item) ''name'' = Some (VStr ''Device-2''))" and
    name3: "(case dict_get (nodes c') 3 of
           None \<Rightarrow> False
         | Some item \<Rightarrow> dict_get (node_data item) ''name'' = Some (VStr ''B''))"
    by (auto split: sum.splits)
  note r = load_data_renumbers [OF h1 h2]
  note r_keys = r [THEN conjunct2, THEN conjunct1]
  note r_content = r [THEN conjunct2, THEN conjunct2, THEN conjunct1]
  note ends = r [THEN conjunct2, THEN conjunct2, THEN conjunct2, THEN conjunct1]
  note r_dropped = r [THEN conjunct2, THEN conjunct2, THEN conjunct2, THEN conjunct2]
  from r_keys have keys: "dict_keys (nodes c') = [1, 2, 3]"
    by simp
  have "dict_get [(''source'', VInt 10), (''target'', VInt 20)] ''source'' = Some (VInt 10)"
    "dict_get [(''source'', VInt 10), (''target'', VInt 20)] ''target'' = Some (VInt 20)"
    by (simp_all add: dict_get_def)
  with r_dropped [rule_format, of "[(''source'', VInt 10), (''target'', VInt 20)]" 10 20] no10
  have dropped: "load_connection (VDict [(''source'', VInt 10), (''target'', VInt 20)]) c' = Inr c'"
    by blast
  have "(1::nat) < length ?ns" by simp
  from r_content [rule_format, OF this] obtain arg2 rx2 ry2 item2 where
    "dict_get (nodes c') (1 + int 1) = Some item2" and
    "dict_get (node_data item2) ''id'' = Some (VInt (1 + int 1))"
    by blast
  then have item2: "dict_get (nodes c') 2 = Some item2"
    and id2: "dict_get (node_data item2) ''id'' = Some (VInt 2)"
    by simp_all
  have "(2::nat) < length ?ns" by simp
  from r_content [rule_format, OF this] obtain arg3 rx3 ry3 item3 where
    "dict_get (nodes c') (1 + int 2) = Some item3" and
    "dict_get (node_data item3) ''id'' = Some (VInt (1 + int 2))"
    by blast
  then have item3: "dict_get (nodes c') 3 = Some item3"
    and id3: "dict_get (node_data item3) ''id'' = Some (VInt 3)"
    by simp_all
  from name2 item2 have n2: "dict_get (node_data item2) ''name'' = Some (VStr ''Device-2'')"
    by simp
  from name3 item3 have n3: "dict_get (node_data item3) ''name'' = Some (VStr ''B'')"
    by simp
  from h1 h2 keys conns ends dropped item2 id2 n2 item3 id3 n3 show ?thesis
    by simp
qed

end
